theory Spec2Isabelle
  imports Main "HOL-Library.Sublist" "HOL-Library.AList"
begin

section \<open>Data model\<close>

text \<open>
  \<^verbatim>\<open>IdType\<close> (imported from \<^verbatim>\<open>utility/HoverTracker\<close>) is the hierarchical id of a node:
  the sibling indices from the root list down to the node.
\<close>

type_synonym IdType = "nat list"

datatype error = InvalidAddress

text \<open>
  Values stored under a key of a node: the \<^verbatim>\<open>data\<close> argument of \<^verbatim>\<open>updateData\<close> is typed
  \<^verbatim>\<open>string | boolean | object | Array<any>\<close> in \<^verbatim>\<open>ResumeNodeBase.tsx\<close>.
\<close>

datatype val =
    Text string
  | Flag bool
  | TextList "string list"
  | Nested "(string \<times> val) list"

text \<open>
  Modelled from the spec: \<^verbatim>\<open>BasicResumeNode\<close> is imported from \<^verbatim>\<open>utility/NodeTree\<close>, which is
  not among the sources. Section 3 of the specification gives a node a permanent uuid, a
  type discriminator, a mapping from field names to values and an ordered child list. The
  fields are an association list in insertion order, as the keys of a JavaScript object
  are; the hidden flag is the key \<^verbatim>\<open>isHidden\<close>, which is where \<^verbatim>\<open>toggleHidden\<close> writes it.
\<close>

datatype ResumeNode =
  ResumeNode (node_uuid: string) (node_type: string)
    (node_data: "(string \<times> val) list") (node_children: "ResumeNode list")

text \<open>
  Modelled from the spec: \<^verbatim>\<open>SelectedNodeProps\<close> is declared in \<^verbatim>\<open>ResumeComponent\<close>, which is not
  among the sources; section 3 keeps the uuid of the selected node.
\<close>

type_synonym SelectedNodeProps = string

text \<open>
  \<^verbatim>\<open>ResumeState\<close> (\<^verbatim>\<open>controls/ResumeState.ts\<close>). \<^verbatim>\<open>EditorMode\<close> and \<^verbatim>\<open>SectionHeaderPosition\<close>
  are unions of string literals declared elsewhere; the members here compare the mode with
  the literals \<^verbatim>\<open>'printing'\<close> and \<^verbatim>\<open>'changingTemplate'\<close>, so both are strings.
\<close>

record ResumeState =
  children :: "ResumeNode list"
  css :: string
  mode :: string
  sectionTitlePosition :: string
  activeTemplate :: "string option"
  clipboard :: "ResumeNode option"
  hoverNode :: "IdType option"
  selectedNode :: "SelectedNodeProps option"

text \<open>
  A callback of type \<^verbatim>\<open>(...) => void\<close> acts on the state of the top-level component and
  may throw: it maps the state to an error or to the next state.
\<close>

type_synonym 'st handler = "'st \<Rightarrow> error + 'st"

text \<open>
  \<^verbatim>\<open>ResumeNodeProps\<close>: the fields of \<^verbatim>\<open>BasicNodeProps\<close>, \<^verbatim>\<open>NodeActions\<close> and
  \<^verbatim>\<open>ResumePassProps\<close> that the members below read, and the two optional flags.
\<close>

record 'st ResumeNodeProps =
  p_id :: IdType
  p_uuid :: string
  p_mode :: string
  p_children :: "ResumeNode list option"
  p_isHidden :: "bool option"
  p_isEditing :: "bool option"
  p_addChild :: "(IdType \<Rightarrow> ResumeNode \<Rightarrow> 'st handler) option"
  p_toggleEdit :: "IdType \<Rightarrow> 'st handler"
  p_hoverOver :: "IdType \<Rightarrow> 'st handler"
  p_hoverOut :: "IdType \<Rightarrow> 'st handler"
  p_isHovering :: "IdType \<Rightarrow> 'st \<Rightarrow> bool"
  p_isSelected :: "string \<Rightarrow> 'st \<Rightarrow> bool"
  p_isSelectBlocked :: "IdType \<Rightarrow> 'st \<Rightarrow> bool"
  p_updateData :: "IdType \<Rightarrow> string \<Rightarrow> val \<Rightarrow> 'st handler"
  p_updateSelected :: "IdType option \<Rightarrow> 'st handler"

text \<open>\<^verbatim>\<open>HeaderProps extends ResumeNodeProps\<close>; \<^verbatim>\<open>value\<close> is the heading text read by \<^verbatim>\<open>render\<close>.\<close>

record 'st HeaderProps = "'st ResumeNodeProps" +
  p_value :: "string option"
  p_orientation :: "string option"

text \<open>The object returned by \<^verbatim>\<open>selectTriggerProps\<close>: \<^verbatim>\<open>{}\<close> has no handler at all.\<close>

record 'st SelectTriggerProps =
  onClick :: "'st handler option"
  onMouseEnter :: "'st handler option"
  onMouseLeave :: "'st handler option"

record 'st TextFieldProps =
  tf_isEditing :: bool
  tf_onClick :: "'st handler option"
  tf_onEnterDown :: "'st handler"

text \<open>
  The props object \<^verbatim>\<open>renderChildren\<close> builds for each child: the child itself (the spread
  \<^verbatim>\<open>...elem\<close>), its uuid, what the parent passes on, and the child's index, the number of
  siblings and the parent's id. \<^verbatim>\<open>updateCustomOptions\<close>, which no member below calls, is left
  out here as in \<^verbatim>\<open>ResumeNodeProps\<close>.
\<close>

record 'st ResumeComponentProps =
  c_elem :: ResumeNode
  c_uuid :: string
  c_mode :: string
  c_addChild :: "(IdType \<Rightarrow> ResumeNode \<Rightarrow> 'st handler) option"
  c_isHovering :: "IdType \<Rightarrow> 'st \<Rightarrow> bool"
  c_isSelected :: "string \<Rightarrow> 'st \<Rightarrow> bool"
  c_isSelectBlocked :: "IdType \<Rightarrow> 'st \<Rightarrow> bool"
  c_hoverOver :: "IdType \<Rightarrow> 'st handler"
  c_hoverOut :: "IdType \<Rightarrow> 'st handler"
  c_toggleEdit :: "IdType \<Rightarrow> 'st handler"
  c_updateData :: "IdType \<Rightarrow> string \<Rightarrow> val \<Rightarrow> 'st handler"
  c_updateSelected :: "IdType option \<Rightarrow> 'st handler"
  c_index :: nat
  c_numChildren :: nat
  c_parentId :: IdType

section \<open>ResumeNodeBase\<close>

text \<open>JavaScript truthiness of an optional boolean prop: \<^verbatim>\<open>undefined\<close> is falsy.\<close>

definition truthy :: "bool option \<Rightarrow> bool" where
  "truthy b = (case b of None \<Rightarrow> False | Some v \<Rightarrow> v)"

definition isPrinting :: "('st, 'm) ResumeNodeProps_scheme \<Rightarrow> bool" where
  "isPrinting props = (p_mode props = ''printing'')"

definition isEditable :: "('st, 'm) ResumeNodeProps_scheme \<Rightarrow> bool" where
  "isEditable props = (\<not> isPrinting props \<and> \<not> (p_mode props = ''changingTemplate''))"

definition isHovering :: "('st, 'm) ResumeNodeProps_scheme \<Rightarrow> 'st \<Rightarrow> bool" where
  "isHovering props st = (p_isHovering props (p_id props) st \<and> \<not> isPrinting props)"

definition isSelected :: "('st, 'm) ResumeNodeProps_scheme \<Rightarrow> 'st \<Rightarrow> bool" where
  "isSelected props st = p_isSelected props (p_uuid props) st"

definition isEditing :: "('st, 'm) ResumeNodeProps_scheme \<Rightarrow> 'st \<Rightarrow> bool" where
  "isEditing props st = (truthy (p_isEditing props) \<and> isSelected props st)"

definition isSelectBlocked :: "('st, 'm) ResumeNodeProps_scheme \<Rightarrow> 'st \<Rightarrow> bool" where
  "isSelectBlocked props st = p_isSelectBlocked props (p_id props) st"

definition isEmpty :: "('st, 'm) ResumeNodeProps_scheme \<Rightarrow> bool" where
  "isEmpty props = (case p_children props of Some cs \<Rightarrow> length cs = 0 | None \<Rightarrow> True)"

definition setSelected :: "('st, 'm) ResumeNodeProps_scheme \<Rightarrow> 'st handler" where
  "setSelected props st =
     (if \<not> isSelected props st \<and> \<not> isSelectBlocked props st
      then p_updateSelected props (Some (p_id props)) st
      else Inr st)"

definition selectTriggerProps :: "('st, 'm) ResumeNodeProps_scheme \<Rightarrow> 'st SelectTriggerProps" where
  "selectTriggerProps props =
     (if \<not> isEditable props
      then \<lparr>onClick = None, onMouseEnter = None, onMouseLeave = None\<rparr>
      else \<lparr>onClick = Some (setSelected props),
            onMouseEnter = Some (p_hoverOver props (p_id props)),
            onMouseLeave = Some (p_hoverOut props (p_id props))\<rparr>)"

definition toggleEdit :: "('st, 'm) ResumeNodeProps_scheme \<Rightarrow> 'st handler" where
  "toggleEdit props st = p_toggleEdit props (p_id props) st"

text \<open>\<^verbatim>\<open>displayProcessor\<close> (the imported \<^verbatim>\<open>process\<close>) only formats text and is left out.\<close>

definition textFieldProps :: "('st, 'm) ResumeNodeProps_scheme \<Rightarrow> 'st \<Rightarrow> 'st TextFieldProps" where
  "textFieldProps props st =
     \<lparr>tf_isEditing = (truthy (p_isEditing props) \<and> isSelected props st),
      tf_onClick = (if isSelected props st then Some (toggleEdit props) else None),
      tf_onEnterDown = toggleEdit props\<rparr>"

definition addChild :: "('st, 'm) ResumeNodeProps_scheme \<Rightarrow> ResumeNode \<Rightarrow> 'st handler" where
  "addChild props node st =
     (case p_addChild props of Some f \<Rightarrow> f (p_id props) node st | None \<Rightarrow> Inr st)"

definition updateData :: "('st, 'm) ResumeNodeProps_scheme \<Rightarrow> string \<Rightarrow> val \<Rightarrow> 'st handler" where
  "updateData props key v st = p_updateData props (p_id props) key v st"

definition toggleHidden :: "('st, 'm) ResumeNodeProps_scheme \<Rightarrow> 'st handler" where
  "toggleHidden props st =
     p_updateData props (p_id props) ''isHidden'' (Flag (\<not> truthy (p_isHidden props))) st"

text \<open>
  \<^verbatim>\<open>children.map((elem, idx, arr) => ...)\<close>: the loop over the child array, with the running
  index \<^verbatim>\<open>idx\<close> and the array length \<^verbatim>\<open>arr.length\<close>.
\<close>

fun mapChildren ::
  "('st, 'm) ResumeNodeProps_scheme \<Rightarrow> nat \<Rightarrow> nat \<Rightarrow> ResumeNode list \<Rightarrow> 'st ResumeComponentProps list"
where
  "mapChildren props len idx [] = []"
| "mapChildren props len idx (elem # rest) =
     \<lparr>c_elem = elem,
      c_uuid = node_uuid elem,
      c_mode = p_mode props,
      c_addChild = p_addChild props,
      c_isHovering = p_isHovering props,
      c_isSelected = p_isSelected props,
      c_isSelectBlocked = p_isSelectBlocked props,
      c_hoverOver = p_hoverOver props,
      c_hoverOut = p_hoverOut props,
      c_toggleEdit = p_toggleEdit props,
      c_updateData = p_updateData props,
      c_updateSelected = p_updateSelected props,
      c_index = idx,
      c_numChildren = len,
      c_parentId = p_id props\<rparr> # mapChildren props len (Suc idx) rest"

definition renderChildren :: "('st, 'm) ResumeNodeProps_scheme \<Rightarrow> 'st ResumeComponentProps list" where
  "renderChildren props =
     (case p_children props of
        Some cs \<Rightarrow> mapChildren props (length cs) 0 cs
      | None \<Rightarrow> [])"

text \<open>
  A pointer event on the element that carries the trigger props: the handler attached
  under the event's name runs; where none is attached nothing happens.
\<close>

datatype PointerEvent = Click | MouseEnter | MouseLeave

definition fire :: "'st SelectTriggerProps \<Rightarrow> PointerEvent \<Rightarrow> 'st handler" where
  "fire tp ev st =
     (case (case ev of Click \<Rightarrow> onClick tp | MouseEnter \<Rightarrow> onMouseEnter tp
                     | MouseLeave \<Rightarrow> onMouseLeave tp) of
        None \<Rightarrow> Inr st
      | Some h \<Rightarrow> h st)"

section \<open>Header\<close>

text \<open>
  \<^verbatim>\<open>Header.render\<close>: the heading is an input field when \<^verbatim>\<open>this.props.isEditing\<close> is
  truthy, else the value or the placeholder. The class name, the style and the grab handle
  come from \<^verbatim>\<open>Row\<close>, which is not among the sources, and are left out.
\<close>

datatype 'st HeadingContent =
    is_InputField: InputField "string option" "string \<Rightarrow> 'st handler"
  | PlainText string

record 'st HeaderElement =
  h_triggers :: "'st SelectTriggerProps"
  h_heading :: "'st HeadingContent"
  h_children :: "'st ResumeComponentProps list"

definition Header_render :: "('st, 'm) HeaderProps_scheme \<Rightarrow> 'st HeaderElement" where
  "Header_render props =
     \<lparr>h_triggers = selectTriggerProps props,
      h_heading =
        (if truthy (p_isEditing props)
         then InputField (p_value props) (\<lambda>s. updateData props ''value'' (Text s))
         else PlainText (case p_value props of
                           None \<Rightarrow> ''Enter a title''
                         | Some v \<Rightarrow> if v = [] then ''Enter a title'' else v)),
      h_children = renderChildren props\<rparr>"

section \<open>ToolbarOptions\<close>

text \<open>
  \<^verbatim>\<open>Entry.name\<close> is the name of the class \<^verbatim>\<open>Entry\<close> (declared as \<^verbatim>\<open>class Entry\<close> in
  \<^verbatim>\<open>public/scripts/bundle.js\<close>).
\<close>

definition Entry_name :: string where
  "Entry_name = ''Entry''"

record BasicEntryProps =
  title :: "string list option"
  subtitle :: "string list option"

datatype 'st ToolbarOption =
  ToolbarOption (opt_text: string) (opt_action: "'st handler option")
    (opt_actions: "'st ToolbarOption list option")

text \<open>
  The argument \<^verbatim>\<open>node\<close> is an object that the closures keep and read when they run, and
  \<^verbatim>\<open>push\<close> changes the array it holds. So the node is a cell of the state: a reference is
  the read and the write of that cell.
\<close>

record 'st NodeRef =
  readNode :: "'st \<Rightarrow> BasicEntryProps"
  writeNode :: "BasicEntryProps \<Rightarrow> 'st \<Rightarrow> 'st"

text \<open>
  \<^verbatim>\<open>let arr = node.title || []; arr.push(''); return arr\<close>. An array, even an empty one, is
  truthy: when the node has a title, \<^verbatim>\<open>arr\<close> is that very array and the push lengthens the
  node's own title; when it has none, \<^verbatim>\<open>arr\<close> is a fresh array and the node stays as it is.
  The result is the array returned and the state after the push.
\<close>

definition addTitleField :: "'st NodeRef \<Rightarrow> 'st \<Rightarrow> string list \<times> 'st" where
  "addTitleField node st =
     (case title (readNode node st) of
        None \<Rightarrow> ([''''], st)
      | Some arr \<Rightarrow>
          (arr @ [''''],
           writeNode node ((readNode node st)\<lparr>title := Some (arr @ [''''])\<rparr>) st))"

definition addSubtitleField :: "'st NodeRef \<Rightarrow> 'st \<Rightarrow> string list \<times> 'st" where
  "addSubtitleField node st =
     (case subtitle (readNode node st) of
        None \<Rightarrow> ([''''], st)
      | Some arr \<Rightarrow>
          (arr @ [''''],
           writeNode node ((readNode node st)\<lparr>subtitle := Some (arr @ [''''])\<rparr>) st))"

text \<open>
  An action evaluates its argument first, \<^verbatim>\<open>addTitleField(node)\<close> with its push, and then
  calls \<^verbatim>\<open>updateNode\<close> with the array.
\<close>

definition ToolbarOptions ::
  "string \<Rightarrow> 'st NodeRef \<Rightarrow> (string \<Rightarrow> val \<Rightarrow> 'st handler) \<Rightarrow> 'st ToolbarOption list"
where
  "ToolbarOptions type node updateNode =
     (if type = Entry_name
      then [ToolbarOption ''Title Options'' None
              (Some [ToolbarOption ''Add another title field''
                       (Some (\<lambda>st. case addTitleField node st of
                                     (arr, st') \<Rightarrow> updateNode ''title'' (TextList arr) st'))
                       None,
                     ToolbarOption ''Add another subtitle field''
                       (Some (\<lambda>st. case addSubtitleField node st of
                                     (arr, st') \<Rightarrow> updateNode ''subtitle'' (TextList arr) st'))
                       None])]
      else [])"

text \<open>
  A state that is one entry object, the reference to it, and a callback that assigns the
  array to the object's key, as an update of the two keys of an entry does.
\<close>

definition entryCell :: "BasicEntryProps NodeRef" where
  "entryCell = \<lparr>readNode = (\<lambda>st. st), writeNode = (\<lambda>n st. n)\<rparr>"

definition entryUpdate :: "string \<Rightarrow> val \<Rightarrow> BasicEntryProps handler" where
  "entryUpdate key v st =
     (case v of
        TextList arr \<Rightarrow>
          Inr (if key = ''title'' then st\<lparr>title := Some arr\<rparr>
               else if key = ''subtitle'' then st\<lparr>subtitle := Some arr\<rparr>
               else st)
      | _ \<Rightarrow> Inr st)"

section \<open>The engine behind the callbacks\<close>

text \<open>
  The component that owns the state and implements the callbacks (\<^verbatim>\<open>Resume\<close>, with
  \<^verbatim>\<open>utility/NodeTree\<close> and \<^verbatim>\<open>utility/HoverTracker\<close>) is not among the sources. Every
  definition of this section is modelled from the specification and says so.
\<close>

text \<open>
  Modelled from the spec: the session state. \<^verbatim>\<open>ResumeState\<close> has no edit flag; section 3
  makes the global edit flag part of the selection state.
\<close>

record EditorSession = ResumeState +
  editFlag :: bool

text \<open>
  Modelled from the spec: \<^verbatim>\<open>NodeStore.resolve(address) -> Node | none\<close> (section 4.1), the
  pure lookup of the node an address names: the first index selects a root, each further
  index a child.
\<close>

fun resolve :: "ResumeNode list \<Rightarrow> IdType \<Rightarrow> ResumeNode option" where
  "resolve ns [] = None"
| "resolve ns (i # rest) =
     (if i < length ns
      then (if rest = [] then Some (ns ! i) else resolve (node_children (ns ! i)) rest)
      else None)"

text \<open>
  Modelled from the spec: a node with its fields, or with its child list, replaced; the
  uuid is permanent (section 3) and the type stays.
\<close>

definition setData :: "ResumeNode \<Rightarrow> (string \<times> val) list \<Rightarrow> ResumeNode" where
  "setData n d = ResumeNode (node_uuid n) (node_type n) d (node_children n)"

definition setChildren :: "ResumeNode \<Rightarrow> ResumeNode list \<Rightarrow> ResumeNode" where
  "setChildren n cs = ResumeNode (node_uuid n) (node_type n) (node_data n) cs"

text \<open>
  Modelled from the spec: the structural mutation primitive of \<^verbatim>\<open>NodeStore\<close>: the tree
  with the node at the address replaced by its image, or nothing when the address does not
  resolve.
\<close>

fun modifyAt ::
  "(ResumeNode \<Rightarrow> ResumeNode) \<Rightarrow> ResumeNode list \<Rightarrow> IdType \<Rightarrow> ResumeNode list option"
where
  "modifyAt f ns [] = None"
| "modifyAt f ns (i # rest) =
     (if i < length ns
      then (if rest = [] then Some (ns[i := f (ns ! i)])
            else (case modifyAt f (node_children (ns ! i)) rest of
                    None \<Rightarrow> None
                  | Some cs \<Rightarrow> Some (ns[i := setChildren (ns ! i) cs])))
      else None)"

text \<open>
  Modelled from the spec: the merge of a value into \<^verbatim>\<open>data[key]\<close> of one node (section 4.1):
  an assignment to the key, which keeps its place when it exists and comes last when new.
\<close>

definition putField :: "string \<Rightarrow> val \<Rightarrow> ResumeNode \<Rightarrow> ResumeNode" where
  "putField key v n = setData n (AList.update key v (node_data n))"

text \<open>
  Modelled from the spec: \<^verbatim>\<open>NodeStore.update(address, key, value)\<close> merges the value into
  the resolved node's \<^verbatim>\<open>data[key]\<close> and fails with \<^verbatim>\<open>InvalidAddress\<close> otherwise.
\<close>

definition store_update ::
  "ResumeNode list \<Rightarrow> IdType \<Rightarrow> string \<Rightarrow> val \<Rightarrow> error + ResumeNode list"
where
  "store_update ns a key v =
     (case modifyAt (putField key v) ns a of
        None \<Rightarrow> Inl InvalidAddress
      | Some ns' \<Rightarrow> Inr ns')"

text \<open>
  Modelled from the spec: \<^verbatim>\<open>NodeStore.add(parentAddress, node)\<close> appends the node as the last
  child of the resolved parent and fails with \<^verbatim>\<open>InvalidAddress\<close> otherwise.
\<close>

definition store_add ::
  "ResumeNode list \<Rightarrow> IdType \<Rightarrow> ResumeNode \<Rightarrow> error + ResumeNode list"
where
  "store_add ns a node =
     (case modifyAt (\<lambda>n. setChildren n (node_children n @ [node])) ns a of
        None \<Rightarrow> Inl InvalidAddress
      | Some ns' \<Rightarrow> Inr ns')"

text \<open>
  Modelled from the spec: \<^verbatim>\<open>MutationRouter\<close> (section 4.4), the funnel that applies a store
  operation to the tree of the session; here for \<^verbatim>\<open>update\<close>, the \<^verbatim>\<open>updateData\<close> callback.
\<close>

definition router_updateData :: "IdType \<Rightarrow> string \<Rightarrow> val \<Rightarrow> EditorSession handler" where
  "router_updateData a key v st =
     (case store_update (children st) a key v of
        Inl e \<Rightarrow> Inl e
      | Inr ns \<Rightarrow> Inr (st\<lparr>children := ns\<rparr>))"

text \<open>
  Modelled from the spec: the same funnel for \<^verbatim>\<open>add\<close>, the \<^verbatim>\<open>addChild\<close> callback.
\<close>

definition router_addChild :: "IdType \<Rightarrow> ResumeNode \<Rightarrow> EditorSession handler" where
  "router_addChild a node st =
     (case store_add (children st) a node of
        Inl e \<Rightarrow> Inl e
      | Inr ns \<Rightarrow> Inr (st\<lparr>children := ns\<rparr>))"

text \<open>
  Modelled from the spec: the strict-prefix test of section 4.2 (\<open>A is descendant of B
  iff B is a strict prefix of A\<close>), as a loop over the two index sequences.
\<close>

fun isStrictPrefix :: "IdType \<Rightarrow> IdType \<Rightarrow> bool" where
  "isStrictPrefix [] [] = False"
| "isStrictPrefix [] (y # ys) = True"
| "isStrictPrefix (x # xs) [] = False"
| "isStrictPrefix (x # xs) (y # ys) = (x = y \<and> isStrictPrefix xs ys)"

text \<open>
  Modelled from the spec: \<^verbatim>\<open>HoverSelectTracker.hoverOver(id)\<close> (section 4.3) sets the hover
  to the id, unless the session is in the non-interactive printing mode, where it is a
  no-op.
\<close>

definition tracker_hoverOver :: "IdType \<Rightarrow> EditorSession handler" where
  "tracker_hoverOver i st =
     Inr (if mode st = ''printing'' then st else st\<lparr>hoverNode := Some i\<rparr>)"

text \<open>
  Modelled from the spec: \<^verbatim>\<open>hoverOut(id)\<close> (section 4.3) clears the hover only if the current
  hover equals the id.
\<close>

definition tracker_hoverOut :: "IdType \<Rightarrow> EditorSession handler" where
  "tracker_hoverOut i st =
     Inr (if hoverNode st = Some i then st\<lparr>hoverNode := None\<rparr> else st)"

text \<open>
  Modelled from the spec: \<^verbatim>\<open>isSelectBlocked(id)\<close> (section 4.3) is true iff a hover id exists
  and the id is a strict prefix of it.
\<close>

definition tracker_isSelectBlocked :: "IdType \<Rightarrow> EditorSession \<Rightarrow> bool" where
  "tracker_isSelectBlocked i st =
     (case hoverNode st of None \<Rightarrow> False | Some h \<Rightarrow> isStrictPrefix i h)"

text \<open>
  Modelled from the spec: \<^verbatim>\<open>isSelected(uuid)\<close> (section 6): the uuid is the selected one.
\<close>

definition tracker_isSelected :: "string \<Rightarrow> EditorSession \<Rightarrow> bool" where
  "tracker_isSelected u st = (selectedNode st = Some u)"

text \<open>
  Modelled from the spec: \<^verbatim>\<open>updateSelected(id?)\<close> (section 4.3), the explicit override: with
  no argument the selection is cleared; with an id the selection becomes the uuid of the
  node it resolves to, and an id that does not resolve is an \<^verbatim>\<open>InvalidAddress\<close> (section 7).
\<close>

definition tracker_updateSelected :: "IdType option \<Rightarrow> EditorSession handler" where
  "tracker_updateSelected target st =
     (case target of
        None \<Rightarrow> Inr (st\<lparr>selectedNode := None\<rparr>)
      | Some i \<Rightarrow>
          (case resolve (children st) i of
             None \<Rightarrow> Inl InvalidAddress
           | Some n \<Rightarrow> Inr (st\<lparr>selectedNode := Some (node_uuid n)\<rparr>)))"

text \<open>
  Modelled from the spec: toggling edit flips the single global flag (section 4.3); the id
  the node passes is not used.
\<close>

definition tracker_toggleEdit :: "IdType \<Rightarrow> EditorSession handler" where
  "tracker_toggleEdit i st = Inr (st\<lparr>editFlag := \<not> editFlag st\<rparr>)"

text \<open>
  Modelled from the spec: \<^verbatim>\<open>isHovering(address)\<close> is listed in section 6 and not defined
  there. The class name \<^verbatim>\<open>resume-hovering-over-children\<close> of \<^verbatim>\<open>ResumeNodeBase\<close> needs a node
  to hover while it is select-blocked, so a node hovers when the hover is at it or below.
\<close>

definition tracker_isHovering :: "IdType \<Rightarrow> EditorSession \<Rightarrow> bool" where
  "tracker_isHovering i st =
     (case hoverNode st of None \<Rightarrow> False | Some h \<Rightarrow> i = h \<or> isStrictPrefix i h)"

text \<open>
  Modelled from the spec: the optional boolean and the optional text a node holds under a
  key, which reach the props through the spread \<^verbatim>\<open>...elem\<close>; a key that is missing, or holds
  a value of another kind than the prop's type, gives no value.
\<close>

definition flagOf :: "val option \<Rightarrow> bool option" where
  "flagOf v = (case v of Some (Flag b) \<Rightarrow> Some b | _ \<Rightarrow> None)"

definition textOf :: "val option \<Rightarrow> string option" where
  "textOf v = (case v of Some (Text s) \<Rightarrow> Some s | _ \<Rightarrow> None)"

text \<open>
  Modelled from the spec: the props of the node rendered at an address of the session:
  its own id, uuid and fields, the session's mode and global edit flag, and the engine's
  operations as callbacks.
\<close>

definition nodeProps :: "EditorSession \<Rightarrow> IdType \<Rightarrow> ResumeNode \<Rightarrow> EditorSession ResumeNodeProps" where
  "nodeProps st i n =
     \<lparr>p_id = i,
      p_uuid = node_uuid n,
      p_mode = mode st,
      p_children = Some (node_children n),
      p_isHidden = flagOf (map_of (node_data n) ''isHidden''),
      p_isEditing = Some (editFlag st),
      p_addChild = Some router_addChild,
      p_toggleEdit = tracker_toggleEdit,
      p_hoverOver = tracker_hoverOver,
      p_hoverOut = tracker_hoverOut,
      p_isHovering = tracker_isHovering,
      p_isSelected = tracker_isSelected,
      p_isSelectBlocked = tracker_isSelectBlocked,
      p_updateData = router_updateData,
      p_updateSelected = tracker_updateSelected\<rparr>"

text \<open>
  Modelled from the spec: the props of a header node, which add the heading text the node
  holds under \<^verbatim>\<open>value\<close>.
\<close>

definition headerProps :: "EditorSession \<Rightarrow> IdType \<Rightarrow> ResumeNode \<Rightarrow> EditorSession HeaderProps" where
  "headerProps st i n =
     ResumeNodeProps.extend (nodeProps st i n)
       (HeaderProps.fields (textOf (map_of (node_data n) ''value'')) None)"

text \<open>
  Modelled from the spec: \<^verbatim>\<open>ResumeComponent\<close>, which receives the props built by
  \<^verbatim>\<open>renderChildren\<close> and derives the child's id as \<^verbatim>\<open>parentId ++ [index]\<close> (section 4.2).
\<close>

definition ResumeComponent :: "bool option \<Rightarrow> 'st ResumeComponentProps \<Rightarrow> 'st ResumeNodeProps" where
  "ResumeComponent editing cp =
     \<lparr>p_id = c_parentId cp @ [c_index cp],
      p_uuid = c_uuid cp,
      p_mode = c_mode cp,
      p_children = Some (node_children (c_elem cp)),
      p_isHidden = flagOf (map_of (node_data (c_elem cp)) ''isHidden''),
      p_isEditing = editing,
      p_addChild = c_addChild cp,
      p_toggleEdit = c_toggleEdit cp,
      p_hoverOver = c_hoverOver cp,
      p_hoverOut = c_hoverOut cp,
      p_isHovering = c_isHovering cp,
      p_isSelected = c_isSelected cp,
      p_isSelectBlocked = c_isSelectBlocked cp,
      p_updateData = c_updateData cp,
      p_updateSelected = c_updateSelected cp\<rparr>"

text \<open>
  Modelled from the spec: \<^verbatim>\<open>IdAllocator\<close> (section 4.2), the depth-first walk that gives
  each root \<^verbatim>\<open>[index-in-root-list]\<close> and each child \<^verbatim>\<open>parentId ++ [index-in-parent]\<close>. The
  result is the id table: every node of the snapshot with its derived id.
\<close>

fun allocNode :: "IdType \<Rightarrow> ResumeNode \<Rightarrow> (IdType \<times> ResumeNode) list"
  and allocList :: "IdType \<Rightarrow> nat \<Rightarrow> ResumeNode list \<Rightarrow> (IdType \<times> ResumeNode) list"
where
  "allocNode i (ResumeNode u t d cs) = (i, ResumeNode u t d cs) # allocList i 0 cs"
| "allocList p k [] = []"
| "allocList p k (c # cs) = allocNode (p @ [k]) c @ allocList p (Suc k) cs"

definition deriveIds :: "ResumeNode list \<Rightarrow> (IdType \<times> ResumeNode) list" where
  "deriveIds roots = allocList [] 0 roots"

text \<open>
  Modelled from the spec: the session left by one event. Section 5 processes an event to
  completion, and section 7 makes a failure local with no partial mutation, so a handler
  that fails leaves the snapshot it was given.
\<close>

definition dispatch :: "'st handler \<Rightarrow> 'st \<Rightarrow> 'st" where
  "dispatch h st = (case h st of Inl e \<Rightarrow> st | Inr st' \<Rightarrow> st')"

text \<open>The hidden flag as the node class reads it (\<^verbatim>\<open>if (this.props.isHidden)\<close>).\<close>

definition hiddenFlag :: "ResumeNode \<Rightarrow> bool" where
  "hiddenFlag n = truthy (flagOf (map_of (node_data n) ''isHidden''))"

text \<open>The parts of a node other than its children.\<close>

definition ownFields :: "ResumeNode option \<Rightarrow> (string \<times> string \<times> (string \<times> val) list) option" where
  "ownFields r = map_option (\<lambda>n. (node_uuid n, node_type n, node_data n)) r"

text \<open>
  What a change of the hidden flag of the node at an address may touch: the session but for
  its tree is the same; every other address resolves as before, to a node with the same
  uuid, type and fields; and the node at the address keeps its uuid, its type, its children
  and every field but \<^verbatim>\<open>isHidden\<close>.
\<close>

definition onlyHiddenChanged :: "EditorSession \<Rightarrow> EditorSession \<Rightarrow> IdType \<Rightarrow> bool" where
  "onlyHiddenChanged st st' a =
     (st' = st\<lparr>children := children st'\<rparr>
      \<and> (\<forall>b. b \<noteq> a \<longrightarrow>
             ownFields (resolve (children st') b) = ownFields (resolve (children st) b))
      \<and> (case resolve (children st) a of
            None \<Rightarrow> resolve (children st') a = None
          | Some n \<Rightarrow>
              (case resolve (children st') a of
                 None \<Rightarrow> False
               | Some n' \<Rightarrow>
                   node_uuid n' = node_uuid n \<and> node_type n' = node_type n
                   \<and> node_children n' = node_children n
                   \<and> (\<forall>k. k \<noteq> ''isHidden'' \<longrightarrow>
                          map_of (node_data n') k = map_of (node_data n) k))))"

text \<open>
  What the update of one key of the node at an address may touch: the session but for its
  tree is the same; every other address resolves as before, to a node with the same uuid,
  type and fields; and the node at the address keeps its uuid, its type, its children and
  every field but the one under the key.
\<close>

definition onlyFieldChanged ::
  "EditorSession \<Rightarrow> EditorSession \<Rightarrow> IdType \<Rightarrow> string \<Rightarrow> bool"
where
  "onlyFieldChanged st st' a key =
     (st' = st\<lparr>children := children st'\<rparr>
      \<and> (\<forall>b. b \<noteq> a \<longrightarrow>
             ownFields (resolve (children st') b) = ownFields (resolve (children st) b))
      \<and> (case resolve (children st) a of
            None \<Rightarrow> resolve (children st') a = None
          | Some n \<Rightarrow>
              (case resolve (children st') a of
                 None \<Rightarrow> False
               | Some n' \<Rightarrow>
                   node_uuid n' = node_uuid n \<and> node_type n' = node_type n
                   \<and> node_children n' = node_children n
                   \<and> (\<forall>k. k \<noteq> key \<longrightarrow>
                          map_of (node_data n') k = map_of (node_data n) k))))"

subsection \<open>The two-node example of section 8\<close>

definition exampleB :: ResumeNode where
  "exampleB = ResumeNode ''uuid-B'' ''Header'' [(''value'', Text ''Work'')] []"

definition exampleA :: ResumeNode where
  "exampleA = ResumeNode ''uuid-A'' ''Section'' [(''isHidden'', Flag False)] [exampleB]"

definition exampleSession :: EditorSession where
  "exampleSession =
     \<lparr>children = [exampleA], css = [], mode = ''normal'', sectionTitlePosition = ''top'',
      activeTemplate = None, clipboard = None, hoverNode = None, selectedNode = None,
      editFlag = False\<rparr>"

text \<open>A second root with two leaves, beside the first.\<close>

definition exampleRoots :: "ResumeNode list" where
  "exampleRoots =
     [exampleA,
      ResumeNode ''uuid-C'' ''Section'' []
        [ResumeNode ''uuid-D'' ''Entry'' [] [], ResumeNode ''uuid-E'' ''Entry'' [] []]]"

text \<open>The example session after \<^verbatim>\<open>hoverOver([0,0])\<close>.\<close>

definition hoveredSession :: EditorSession where
  "hoveredSession = exampleSession\<lparr>hoverNode := Some [0, 0]\<rparr>"

text \<open>The example session with the outer node selected and the global edit flag set.\<close>

definition editSession :: EditorSession where
  "editSession = exampleSession\<lparr>selectedNode := Some ''uuid-A'', editFlag := True\<rparr>"

text \<open>The example session while printing, with a hover stored at the inner node.\<close>

definition printingSession :: EditorSession where
  "printingSession = exampleSession\<lparr>mode := ''printing'', hoverNode := Some [0, 0]\<rparr>"

definition templateSession :: EditorSession where
  "templateSession = exampleSession\<lparr>mode := ''changingTemplate''\<rparr>"

section \<open>Lemmas about the store\<close>

lemma isStrictPrefix_iff: "isStrictPrefix xs ys \<longleftrightarrow> strict_prefix xs ys"
  by (induction xs ys rule: isStrictPrefix.induct) auto

lemma modifyAt_None_iff: "modifyAt f ns a = None \<longleftrightarrow> resolve ns a = None"
proof (induction a arbitrary: ns)
  case Nil
  then show ?case by simp
next
  case (Cons i rest)
  show ?case
  proof (cases "i < length ns \<and> rest \<noteq> []")
    case True
    with Cons.IH [of "node_children (ns ! i)"] show ?thesis
      by (cases "modifyAt f (node_children (ns ! i)) rest") auto
  next
    case False
    then show ?thesis by auto
  qed
qed

lemma resolve_modifyAt_same:
  "modifyAt f ns a = Some ns' \<Longrightarrow> resolve ns' a = map_option f (resolve ns a)"
proof (induction a arbitrary: ns ns')
  case Nil
  then show ?case by simp
next
  case (Cons i rest)
  then show ?case
    by (auto split: if_splits option.splits simp: setChildren_def)
qed

lemma modifyAt_fixed:
  "resolve ns a = Some n \<Longrightarrow> f n = n \<Longrightarrow> modifyAt f ns a = Some ns"
proof (induction a arbitrary: ns)
  case Nil
  then show ?case by simp
next
  case (Cons i rest)
  then show ?case
    by (auto split: if_splits option.splits simp: setChildren_def)
qed

lemma modifyAt_twice:
  "modifyAt g ns a = Some ns' \<Longrightarrow> modifyAt f ns' a = modifyAt (\<lambda>n. f (g n)) ns a"
proof (induction a arbitrary: ns ns')
  case Nil
  then show ?case by simp
next
  case (Cons i rest)
  then show ?case
    by (auto split: if_splits option.splits simp: setChildren_def)
qed


lemma ownFields_modifyAt_other:
  assumes keep: "\<And>n. node_children (f n) = node_children n"
  shows "modifyAt f ns a = Some ns' \<Longrightarrow> b \<noteq> a \<Longrightarrow>
         ownFields (resolve ns' b) = ownFields (resolve ns b)"
proof (induction a arbitrary: ns ns' b)
  case Nil
  then show ?case by simp
next
  case (Cons i rest)
  from Cons.prems(1) have i: "i < length ns"
    by (simp split: if_splits)
  show ?case
  proof (cases b)
    case Nil
    then show ?thesis by simp
  next
    case b: (Cons j rest')
    show ?thesis
    proof (cases "rest = []")
      case True
      with Cons.prems(1) i have ns': "ns' = ns[i := f (ns ! i)]"
        by simp
      show ?thesis
      proof (cases "j = i")
        case True
        with b Cons.prems(2) \<open>rest = []\<close> have "rest' \<noteq> []" by simp
        with True b ns' i keep show ?thesis by simp
      next
        case False
        with b ns' show ?thesis by simp
      qed
    next
      case False
      with Cons.prems(1) i obtain cs where
        cs: "modifyAt f (node_children (ns ! i)) rest = Some cs"
        and ns': "ns' = ns[i := setChildren (ns ! i) cs]"
        by (auto split: option.splits)
      show ?thesis
      proof (cases "j = i")
        case True
        show ?thesis
        proof (cases "rest' = []")
          case True
          with \<open>j = i\<close> b ns' i show ?thesis
            by (simp add: ownFields_def setChildren_def)
        next
          case False
          with \<open>j = i\<close> b Cons.prems(2) have "rest' \<noteq> rest" by simp
          from Cons.IH [OF cs this] False \<open>j = i\<close> b ns' i show ?thesis
            by (simp add: setChildren_def)
        qed
      next
        case False
        with b ns' show ?thesis by simp
      qed
    qed
  qed
qed


lemma putField_children: "node_children (putField key v n) = node_children n"
  by (simp add: putField_def setData_def)

lemma router_updateData_unresolved:
  "resolve (children st) a = None \<Longrightarrow> router_updateData a key v st = Inl InvalidAddress"
  using modifyAt_None_iff [of "putField key v" "children st" a]
  by (simp add: router_updateData_def store_update_def)

lemma router_updateData_resolved:
  assumes "resolve (children st) a = Some n"
  shows "\<exists>ns'. modifyAt (putField key v) (children st) a = Some ns'
           \<and> router_updateData a key v st = Inr (st\<lparr>children := ns'\<rparr>)
           \<and> resolve ns' a = Some (putField key v n)"
proof -
  from assms have "modifyAt (putField key v) (children st) a \<noteq> None"
    by (simp add: modifyAt_None_iff)
  then obtain ns' where m: "modifyAt (putField key v) (children st) a = Some ns'"
    by blast
  from resolve_modifyAt_same [OF m] assms have "resolve ns' a = Some (putField key v n)"
    by simp
  with m show ?thesis
    by (simp add: router_updateData_def store_update_def)
qed

lemma putField_lookup: "map_of (node_data (putField key v n)) key = Some v"
  by (simp add: putField_def setData_def update_conv')

lemma putField_again: "putField key v (putField key v' n) = putField key v n"
  by (simp add: putField_def setData_def)

lemma onlyHiddenChanged_putField:
  assumes r: "resolve (children st) a = Some n"
    and m: "modifyAt (putField ''isHidden'' v) (children st) a = Some ns'"
  shows "onlyHiddenChanged st (st\<lparr>children := ns'\<rparr>) a"
proof -
  have other: "\<forall>b. b \<noteq> a \<longrightarrow> ownFields (resolve ns' b) = ownFields (resolve (children st) b)"
    using ownFields_modifyAt_other [OF putField_children m] by blast
  from resolve_modifyAt_same [OF m] r
  have here: "resolve ns' a = Some (putField ''isHidden'' v n)"
    by simp
  have keys: "\<forall>k. k \<noteq> ''isHidden'' \<longrightarrow>
      map_of (node_data (putField ''isHidden'' v n)) k = map_of (node_data n) k"
    by (simp add: putField_def setData_def update_conv')
  from other here keys r show ?thesis
    by (simp add: onlyHiddenChanged_def putField_def setData_def)
qed

lemma onlyFieldChanged_putField:
  assumes r: "resolve (children st) a = Some n"
    and m: "modifyAt (putField key v) (children st) a = Some ns'"
  shows "onlyFieldChanged st (st\<lparr>children := ns'\<rparr>) a key"
proof -
  have other: "\<forall>b. b \<noteq> a \<longrightarrow> ownFields (resolve ns' b) = ownFields (resolve (children st) b)"
    using ownFields_modifyAt_other [OF putField_children m] by blast
  from resolve_modifyAt_same [OF m] r
  have here: "resolve ns' a = Some (putField key v n)"
    by simp
  have keys: "\<forall>k. k \<noteq> key \<longrightarrow>
      map_of (node_data (putField key v n)) k = map_of (node_data n) k"
    by (simp add: putField_def setData_def update_conv')
  from other here keys r show ?thesis
    by (simp add: onlyFieldChanged_def putField_def setData_def)
qed

lemma addTitleField_pushes_in_place:
  "addTitleField entryCell \<lparr>title = Some [''a''], subtitle = None\<rparr>
     = ([''a'', ''''], \<lparr>title = Some [''a'', ''''], subtitle = None\<rparr>)"
  "addTitleField entryCell \<lparr>title = None, subtitle = None\<rparr>
     = ([''''], \<lparr>title = None, subtitle = None\<rparr>)"
  by (simp_all add: addTitleField_def entryCell_def)

lemma toggleHidden_nodeProps:
  "toggleHidden (nodeProps st a n) st = router_updateData a ''isHidden'' (Flag (\<not> hiddenFlag n)) st"
  by (simp add: toggleHidden_def nodeProps_def hiddenFlag_def)

lemma hiddenFlag_putField: "hiddenFlag (putField ''isHidden'' (Flag b) n) = b"
  by (simp add: hiddenFlag_def putField_lookup flagOf_def truthy_def)

lemma Header_render_heading:
  "is_InputField (h_heading (Header_render props)) \<longleftrightarrow> truthy (p_isEditing props)"
  by (simp add: Header_render_def)

lemma isEditing_selected_only:
  "isEditing (nodeProps st a n) st \<longleftrightarrow> editFlag st \<and> selectedNode st = Some (node_uuid n)"
  by (auto simp add: isEditing_def isSelected_def nodeProps_def tracker_isSelected_def truthy_def)

section \<open>Lemmas about the id table\<close>

lemma resolve_Cons_Suc: "resolve (c # cs) (Suc j # rest) = resolve cs (j # rest)"
  by simp

lemma alloc_mem:
  "(x, m) \<in> set (allocNode i nd) \<longleftrightarrow>
     (x = i \<and> m = nd) \<or> (\<exists>j rest. x = i @ j # rest \<and> resolve (node_children nd) (j # rest) = Some m)"
  "(x, m) \<in> set (allocList p k cs) \<longleftrightarrow>
     (\<exists>j rest. x = p @ (k + j) # rest \<and> resolve cs (j # rest) = Some m)"
proof (induction i nd and p k cs arbitrary: x m and x m rule: allocNode_allocList.induct)
  case (1 i u t d cs)
  then show ?case by auto
next
  case (2 p k)
  then show ?case by simp
next
  case (3 p k c cs)
  have split: "(\<exists>j rest. x = p @ (k + j) # rest \<and> resolve (c # cs) (j # rest) = Some m) \<longleftrightarrow>
      (\<exists>rest. x = p @ k # rest \<and> resolve (c # cs) (0 # rest) = Some m)
      \<or> (\<exists>j rest. x = p @ (Suc k + j) # rest \<and> resolve (c # cs) (Suc j # rest) = Some m)"
    (is "?L \<longleftrightarrow> ?A \<or> ?B")
  proof
    assume ?L
    then obtain j rest where jr: "x = p @ (k + j) # rest" "resolve (c # cs) (j # rest) = Some m"
      by blast
    show "?A \<or> ?B"
    proof (cases j)
      case 0
      with jr show ?thesis by auto
    next
      case (Suc j')
      with jr have "x = p @ (Suc k + j') # rest \<and> resolve (c # cs) (Suc j' # rest) = Some m"
        by simp
      then show ?thesis by blast
    qed
  next
    assume "?A \<or> ?B"
    then show ?L
    proof
      assume ?A
      then obtain rest where "x = p @ (k + 0) # rest" "resolve (c # cs) (0 # rest) = Some m"
        by auto
      then show ?L by blast
    next
      assume ?B
      then obtain j rest where "x = p @ (k + Suc j) # rest" "resolve (c # cs) (Suc j # rest) = Some m"
        by auto
      then show ?L by blast
    qed
  qed
  have first: "(\<exists>rest. x = p @ k # rest \<and> resolve (c # cs) (0 # rest) = Some m) \<longleftrightarrow>
      (x, m) \<in> set (allocNode (p @ [k]) c)"
  proof -
    have "(\<exists>rest. x = p @ k # rest \<and> resolve (c # cs) (0 # rest) = Some m) \<longleftrightarrow>
        (x = p @ [k] \<and> m = c)
        \<or> (\<exists>j rest. x = (p @ [k]) @ j # rest \<and> resolve (node_children c) (j # rest) = Some m)"
      (is "?P \<longleftrightarrow> ?Q \<or> ?R")
    proof
      assume ?P
      then obtain rest where r: "x = p @ k # rest" "resolve (c # cs) (0 # rest) = Some m"
        by blast
      show "?Q \<or> ?R"
      proof (cases rest)
        case Nil
        with r show ?thesis by simp
      next
        case (Cons j rest')
        with r have "x = (p @ [k]) @ j # rest' \<and> resolve (node_children c) (j # rest') = Some m"
          by simp
        then show ?thesis by blast
      qed
    next
      assume "?Q \<or> ?R"
      then show ?P
      proof
        assume ?Q
        then have "x = p @ k # [] \<and> resolve (c # cs) (0 # []) = Some m" by simp
        then show ?P by blast
      next
        assume ?R
        then obtain j rest where "x = p @ k # (j # rest)"
          "resolve (c # cs) (0 # (j # rest)) = Some m"
          by auto
        then show ?P by blast
      qed
    qed
    with "3.IH"(1) [of x m] show ?thesis by simp
  qed
  have second: "(\<exists>j rest. x = p @ (Suc k + j) # rest \<and> resolve (c # cs) (Suc j # rest) = Some m)
      \<longleftrightarrow> (x, m) \<in> set (allocList p (Suc k) cs)"
    using "3.IH"(2) [of x m] by (simp only: resolve_Cons_Suc)
  from split first second show ?case
    by auto
qed


lemma alloc_distinct:
  "distinct (map fst (allocNode i nd))"
  "distinct (map fst (allocList p k cs))"
proof (induction i nd and p k cs rule: allocNode_allocList.induct)
  case (1 i u t d cs)
  have "i \<notin> fst ` set (allocList i 0 cs)"
    by (auto simp: alloc_mem(2))
  with 1 show ?case by simp
next
  case (2 p k)
  then show ?case by simp
next
  case (3 p k c cs)
  have "fst ` set (allocNode (p @ [k]) c) \<inter> fst ` set (allocList p (Suc k) cs) = {}"
    by (auto simp: alloc_mem)
  with 3 show ?case by simp
qed

lemma deriveIds_resolve: "(x, m) \<in> set (deriveIds roots) \<longleftrightarrow> resolve roots x = Some m"
proof -
  have "(x, m) \<in> set (deriveIds roots) \<longleftrightarrow> (\<exists>j rest. x = j # rest \<and> resolve roots (j # rest) = Some m)"
    by (simp add: deriveIds_def alloc_mem(2))
  also have "\<dots> \<longleftrightarrow> resolve roots x = Some m"
    by (cases x) auto
  finally show ?thesis .
qed

lemma resolve_snoc:
  "p \<noteq> [] \<Longrightarrow> resolve ns (p @ [k]) =
     (case resolve ns p of
        None \<Rightarrow> None
      | Some nd \<Rightarrow> if k < length (node_children nd) then Some (node_children nd ! k) else None)"
proof (induction p arbitrary: ns)
  case Nil
  then show ?case by simp
next
  case (Cons i rest)
  show ?case
  proof (cases "rest = []")
    case True
    then show ?thesis by simp
  next
    case False
    with Cons.IH [OF False, of "node_children (ns ! i)"] show ?thesis by simp
  qed
qed

lemma resolve_positional:
  "resolve roots x = Some m \<longleftrightarrow>
     (\<exists>k. k < length roots \<and> x = [k] \<and> m = roots ! k)
     \<or> (\<exists>p nd k. resolve roots p = Some nd \<and> k < length (node_children nd)
           \<and> x = p @ [k] \<and> m = node_children nd ! k)"
  (is "?L \<longleftrightarrow> ?A \<or> ?B")
proof
  assume l: ?L
  then have "x \<noteq> []" by auto
  then obtain p k where x: "x = p @ [k]"
    by (metis rev_exhaust)
  show "?A \<or> ?B"
  proof (cases "p = []")
    case True
    with l x show ?thesis by (auto split: if_splits)
  next
    case False
    from l x resolve_snoc [OF False, of roots k] have ?B
      by (auto split: option.splits if_splits)
    then show ?thesis ..
  qed
next
  assume "?A \<or> ?B"
  then show ?L
  proof
    assume ?A
    then show ?L by auto
  next
    assume ?B
    then obtain p nd k where b: "resolve roots p = Some nd" "k < length (node_children nd)"
      "x = p @ [k]" "m = node_children nd ! k"
      by blast
    then have "p \<noteq> []" by auto
    from resolve_snoc [OF this, of roots k] b show ?L by simp
  qed
qed

lemma mapChildren_ids:
  "map (\<lambda>cp. (c_parentId cp @ [c_index cp], c_elem cp)) (mapChildren props len idx cs)
     = map (\<lambda>k. (p_id props @ [idx + k], cs ! k)) [0..<length cs]"
proof (induction cs arbitrary: idx)
  case Nil
  then show ?case by simp
next
  case (Cons c cs)
  have "map (\<lambda>k. (p_id props @ [idx + k], (c # cs) ! k)) [0..<length (c # cs)]
      = (p_id props @ [idx], c) # map (\<lambda>k. (p_id props @ [Suc idx + k], cs ! k)) [0..<length cs]"
    by (simp add: upt_conv_Cons map_Suc_upt [symmetric] del: upt_Suc)
  with Cons.IH [of "Suc idx"] show ?case by simp
qed

lemma renderChildren_ids:
  "map (\<lambda>cp. (p_id (ResumeComponent e cp), c_elem cp)) (renderChildren (nodeProps st x m))
     = map (\<lambda>k. (x @ [k], node_children m ! k)) [0..<length (node_children m)]"
  using mapChildren_ids [of "nodeProps st x m" "length (node_children m)" 0 "node_children m"]
  by (simp add: renderChildren_def ResumeComponent_def nodeProps_def)

section \<open>Interaction is disabled while printing and while changing the template\<close>

text \<open>
  C6. While the mode is \<^verbatim>\<open>printing\<close>, a node attaches no click, mouse-enter or mouse-leave
  handler, so every pointer event on it returns the state it was given, without error and
  whatever the callbacks would have done; and the node does not report itself as hovering,
  whatever the callback \<^verbatim>\<open>isHovering\<close> answers from the stored hover.
\<close>

theorem printing_absorbs_pointer_events:
  "p_mode props = ''printing'' \<Longrightarrow>
     selectTriggerProps props = \<lparr>onClick = None, onMouseEnter = None, onMouseLeave = None\<rparr>
     \<and> fire (selectTriggerProps props) ev st = Inr st
     \<and> \<not> isHovering props st"
  by (cases ev)
    (simp_all add: selectTriggerProps_def isEditable_def isPrinting_def fire_def isHovering_def)

theorem printing_absorbs_pointer_events_witness:
  "p_mode (nodeProps printingSession [0, 0] exampleB) = ''printing''
   \<and> tracker_isHovering [0, 0] printingSession
   \<and> \<not> isHovering (nodeProps printingSession [0, 0] exampleB) printingSession
   \<and> fire (selectTriggerProps (nodeProps printingSession [0, 0] exampleB)) MouseEnter
        printingSession = Inr printingSession
   \<and> fire (selectTriggerProps (nodeProps printingSession [0, 0] exampleB)) Click
        printingSession = Inr printingSession"
proof -
  have m: "p_mode (nodeProps printingSession [0, 0] exampleB) = ''printing''"
    by (simp add: nodeProps_def printingSession_def)
  have h: "tracker_isHovering [0, 0] printingSession"
    by (simp add: tracker_isHovering_def printingSession_def)
  from m h printing_absorbs_pointer_events [OF m, of MouseEnter printingSession]
       printing_absorbs_pointer_events [OF m, of Click printingSession]
  show ?thesis by blast
qed

text \<open>
  C10. While the mode is \<^verbatim>\<open>changingTemplate\<close>, \<^verbatim>\<open>selectTriggerProps\<close> is the empty object as
  well: no handler is attached, so no pointer event on the node reaches \<^verbatim>\<open>hoverOver\<close>,
  \<^verbatim>\<open>hoverOut\<close> or \<^verbatim>\<open>setSelected\<close>, and the state is returned as it was.
\<close>

theorem changingTemplate_attaches_no_handlers:
  "p_mode props = ''changingTemplate'' \<Longrightarrow>
     selectTriggerProps props = \<lparr>onClick = None, onMouseEnter = None, onMouseLeave = None\<rparr>
     \<and> fire (selectTriggerProps props) ev st = Inr st"
  by (cases ev) (simp_all add: selectTriggerProps_def isEditable_def isPrinting_def fire_def)

theorem changingTemplate_attaches_no_handlers_witness:
  "p_mode (nodeProps templateSession [0] exampleA) = ''changingTemplate''
   \<and> onClick (selectTriggerProps (nodeProps templateSession [0] exampleA)) = None
   \<and> onMouseEnter (selectTriggerProps (nodeProps templateSession [0] exampleA)) = None
   \<and> fire (selectTriggerProps (nodeProps templateSession [0] exampleA)) Click templateSession
       = Inr templateSession"
proof -
  have m: "p_mode (nodeProps templateSession [0] exampleA) = ''changingTemplate''"
    by (simp add: nodeProps_def templateSession_def)
  from changingTemplate_attaches_no_handlers [OF m, of Click templateSession] m
  show ?thesis by (simp add: fire_def)
qed

section \<open>Toolbar options\<close>

text \<open>
  C8. For every type other than the one registered type (the name of \<^verbatim>\<open>Entry\<close>), for every
  node and every update callback, \<^verbatim>\<open>ToolbarOptions\<close> returns the empty list; so it does for
  \<^verbatim>\<open>"unknown-type"\<close>. The function has no failing branch.
\<close>

theorem ToolbarOptions_unregistered_empty:
  "(type \<noteq> Entry_name \<longrightarrow> ToolbarOptions type node updateNode = [])
   \<and> ToolbarOptions ''unknown-type'' node updateNode = []"
  by (simp add: ToolbarOptions_def Entry_name_def)

theorem ToolbarOptions_unregistered_empty_witness:
  "''Section'' \<noteq> Entry_name
   \<and> ToolbarOptions ''Section'' entryCell entryUpdate = []"
  using ToolbarOptions_unregistered_empty [of "''Section''" entryCell entryUpdate]
  by (simp add: Entry_name_def)

section \<open>Hover and selection\<close>

text \<open>
  C1. The node at an address is select-blocked exactly when a hover address exists of which
  its address is a strict prefix; so it is not blocked when the hover is at the node itself
  or at an ancestor. In the example with roots \<^verbatim>\<open>[A(children=[B])]\<close> the ids are \<^verbatim>\<open>A=[0]\<close> and
  \<^verbatim>\<open>B=[0,0]\<close>, and after \<^verbatim>\<open>hoverOver([0,0])\<close> the node \<^verbatim>\<open>[0]\<close> is blocked and \<^verbatim>\<open>[0,0]\<close> is not.
\<close>

theorem isSelectBlocked_strict_prefix:
  "(isSelectBlocked (nodeProps st a n) st \<longleftrightarrow> (\<exists>h. hoverNode st = Some h \<and> strict_prefix a h))
   \<and> (hoverNode st = Some h \<and> prefix h a \<longrightarrow> \<not> isSelectBlocked (nodeProps st a n) st)
   \<and> deriveIds [exampleA] = [([0], exampleA), ([0, 0], exampleB)]
   \<and> tracker_hoverOver [0, 0] exampleSession = Inr hoveredSession
   \<and> isSelectBlocked (nodeProps hoveredSession [0] exampleA) hoveredSession
   \<and> \<not> isSelectBlocked (nodeProps hoveredSession [0, 0] exampleB) hoveredSession"
proof -
  have iff: "isSelectBlocked (nodeProps st a n) st \<longleftrightarrow> (\<exists>h. hoverNode st = Some h \<and> strict_prefix a h)"
    by (simp add: isSelectBlocked_def nodeProps_def tracker_isSelectBlocked_def isStrictPrefix_iff
        split: option.splits)
  have never: "hoverNode st = Some h \<and> prefix h a \<longrightarrow> \<not> isSelectBlocked (nodeProps st a n) st"
    using iff by (auto simp: strict_prefix_def)
  have ids: "deriveIds [exampleA] = [([0], exampleA), ([0, 0], exampleB)]"
    by (simp add: deriveIds_def exampleA_def exampleB_def)
  have hov: "tracker_hoverOver [0, 0] exampleSession = Inr hoveredSession"
    by (simp add: tracker_hoverOver_def hoveredSession_def exampleSession_def)
  have a: "isSelectBlocked (nodeProps hoveredSession [0] exampleA) hoveredSession"
    by (simp add: isSelectBlocked_def nodeProps_def tracker_isSelectBlocked_def hoveredSession_def)
  have b: "\<not> isSelectBlocked (nodeProps hoveredSession [0, 0] exampleB) hoveredSession"
    by (simp add: isSelectBlocked_def nodeProps_def tracker_isSelectBlocked_def hoveredSession_def)
  from iff never ids hov a b show ?thesis by blast
qed

theorem isSelectBlocked_strict_prefix_witness:
  "hoverNode hoveredSession = Some [0, 0] \<and> strict_prefix [0] [0, 0::nat]
   \<and> isSelectBlocked (nodeProps hoveredSession [0] exampleA) hoveredSession
   \<and> prefix [0, 0] [0, 0::nat]
   \<and> \<not> isSelectBlocked (nodeProps hoveredSession [0, 0] exampleB) hoveredSession
   \<and> \<not> isSelectBlocked (nodeProps exampleSession [0] exampleA) exampleSession"
proof -
  have h: "hoverNode hoveredSession = Some [0, 0]"
    by (simp add: hoveredSession_def)
  have n: "hoverNode exampleSession = None"
    by (simp add: exampleSession_def)
  have p: "strict_prefix [0] [0, 0::nat]" "prefix [0, 0] [0, 0::nat]"
    by simp_all
  from isSelectBlocked_strict_prefix [of hoveredSession "[0]" exampleA "[0, 0]"]
       isSelectBlocked_strict_prefix [of hoveredSession "[0, 0]" exampleB "[0, 0]"]
       isSelectBlocked_strict_prefix [of exampleSession "[0]" exampleA "[0, 0]"]
       h n p
  show ?thesis by simp
qed

text \<open>
  C3. \<^verbatim>\<open>hoverOut(id)\<close> clears the hover when the stored hover is \<^verbatim>\<open>id\<close>, and leaves the state
  as it is when the stored hover is another id or none; the mouse-leave handler of an
  editable node is this call with the node's id.
\<close>

theorem hoverOut_clears_only_own_hover:
  "(hoverNode st = Some i \<longrightarrow> tracker_hoverOut i st = Inr (st\<lparr>hoverNode := None\<rparr>))
   \<and> (hoverNode st \<noteq> Some i \<longrightarrow> tracker_hoverOut i st = Inr st)
   \<and> (isEditable (nodeProps st i n) \<longrightarrow>
        fire (selectTriggerProps (nodeProps st i n)) MouseLeave st = tracker_hoverOut i st)"
  by (simp add: tracker_hoverOut_def fire_def selectTriggerProps_def nodeProps_def)

theorem hoverOut_clears_only_own_hover_witness:
  "hoverNode hoveredSession \<noteq> Some [0, 1]
   \<and> tracker_hoverOut [0, 1] hoveredSession = Inr hoveredSession
   \<and> hoverNode hoveredSession = Some [0, 0]
   \<and> tracker_hoverOut [0, 0] hoveredSession = Inr exampleSession
   \<and> isEditable (nodeProps hoveredSession [0, 0] exampleB)
   \<and> fire (selectTriggerProps (nodeProps hoveredSession [0, 0] exampleB)) MouseLeave hoveredSession
       = Inr exampleSession"
proof -
  have h: "hoverNode hoveredSession = Some [0, 0]" "hoverNode hoveredSession \<noteq> Some [0, 1]"
    by (simp_all add: hoveredSession_def)
  have e: "isEditable (nodeProps hoveredSession [0, 0] exampleB)"
    by (simp add: isEditable_def isPrinting_def nodeProps_def hoveredSession_def exampleSession_def)
  have c: "hoveredSession\<lparr>hoverNode := None\<rparr> = exampleSession"
    by (simp add: hoveredSession_def exampleSession_def)
  from hoverOut_clears_only_own_hover [of hoveredSession "[0, 1]" exampleB]
       hoverOut_clears_only_own_hover [of hoveredSession "[0, 0]" exampleB]
       h e c
  show ?thesis by simp
qed

text \<open>
  C2. A click on the node at a resolving address, when the node is neither selected nor
  select-blocked, makes the selection the node's uuid and changes nothing else; when the
  node is selected already or is select-blocked, the click returns the state as it was. In
  the two-node example, after \<^verbatim>\<open>hoverOver([0,0])\<close> a click on \<^verbatim>\<open>[0]\<close> leaves the selection unset
  and a click on \<^verbatim>\<open>[0,0]\<close> then selects the uuid of \<^verbatim>\<open>B\<close>.
\<close>

theorem setSelected_click:
  "resolve (children st) a = Some n \<Longrightarrow>
     (\<not> isSelected (nodeProps st a n) st \<and> \<not> isSelectBlocked (nodeProps st a n) st \<longrightarrow>
        setSelected (nodeProps st a n) st = Inr (st\<lparr>selectedNode := Some (node_uuid n)\<rparr>))
     \<and> (isSelected (nodeProps st a n) st \<or> isSelectBlocked (nodeProps st a n) st \<longrightarrow>
        setSelected (nodeProps st a n) st = Inr st)
     \<and> tracker_hoverOver [0, 0] exampleSession = Inr hoveredSession
     \<and> setSelected (nodeProps hoveredSession [0] exampleA) hoveredSession = Inr hoveredSession
     \<and> selectedNode hoveredSession = None
     \<and> setSelected (nodeProps hoveredSession [0, 0] exampleB) hoveredSession
         = Inr (hoveredSession\<lparr>selectedNode := Some (node_uuid exampleB)\<rparr>)"
proof -
  assume r: "resolve (children st) a = Some n"
  have sel: "\<not> isSelected (nodeProps st a n) st \<and> \<not> isSelectBlocked (nodeProps st a n) st \<longrightarrow>
        setSelected (nodeProps st a n) st = Inr (st\<lparr>selectedNode := Some (node_uuid n)\<rparr>)"
    using r by (simp add: setSelected_def nodeProps_def tracker_updateSelected_def)
  have noop: "isSelected (nodeProps st a n) st \<or> isSelectBlocked (nodeProps st a n) st \<longrightarrow>
        setSelected (nodeProps st a n) st = Inr st"
    by (auto simp add: setSelected_def)
  have hov: "tracker_hoverOver [0, 0] exampleSession = Inr hoveredSession"
    by (simp add: tracker_hoverOver_def hoveredSession_def exampleSession_def)
  have outer: "setSelected (nodeProps hoveredSession [0] exampleA) hoveredSession = Inr hoveredSession"
    by (simp add: setSelected_def isSelected_def isSelectBlocked_def nodeProps_def
        tracker_isSelectBlocked_def hoveredSession_def)
  have unset: "selectedNode hoveredSession = None"
    by (simp add: hoveredSession_def exampleSession_def)
  have inner: "setSelected (nodeProps hoveredSession [0, 0] exampleB) hoveredSession
         = Inr (hoveredSession\<lparr>selectedNode := Some (node_uuid exampleB)\<rparr>)"
    by (simp add: setSelected_def isSelected_def isSelectBlocked_def nodeProps_def
        tracker_isSelectBlocked_def tracker_isSelected_def tracker_updateSelected_def
        hoveredSession_def exampleSession_def exampleA_def)
  from sel noop hov outer unset inner show ?thesis by blast
qed

theorem setSelected_click_witness:
  "resolve (children hoveredSession) [0, 0] = Some exampleB
   \<and> \<not> isSelected (nodeProps hoveredSession [0, 0] exampleB) hoveredSession
   \<and> \<not> isSelectBlocked (nodeProps hoveredSession [0, 0] exampleB) hoveredSession
   \<and> setSelected (nodeProps hoveredSession [0, 0] exampleB) hoveredSession
       = Inr (hoveredSession\<lparr>selectedNode := Some ''uuid-B''\<rparr>)
   \<and> resolve (children hoveredSession) [0] = Some exampleA
   \<and> isSelectBlocked (nodeProps hoveredSession [0] exampleA) hoveredSession
   \<and> setSelected (nodeProps hoveredSession [0] exampleA) hoveredSession = Inr hoveredSession"
proof -
  have rb: "resolve (children hoveredSession) [0, 0] = Some exampleB"
    and ra: "resolve (children hoveredSession) [0] = Some exampleA"
    by (simp_all add: hoveredSession_def exampleSession_def exampleA_def)
  have nb: "\<not> isSelected (nodeProps hoveredSession [0, 0] exampleB) hoveredSession"
    "\<not> isSelectBlocked (nodeProps hoveredSession [0, 0] exampleB) hoveredSession"
    "isSelectBlocked (nodeProps hoveredSession [0] exampleA) hoveredSession"
    by (simp_all add: isSelected_def isSelectBlocked_def nodeProps_def tracker_isSelected_def
        tracker_isSelectBlocked_def hoveredSession_def exampleSession_def)
  have u: "node_uuid exampleB = ''uuid-B''"
    by (simp add: exampleB_def)
  from setSelected_click [OF rb] setSelected_click [OF ra] rb ra nb u
  show ?thesis by simp
qed

section \<open>Updating a node\<close>

text \<open>
  C5. \<^verbatim>\<open>updateData\<close> at an address that does not resolve fails with \<^verbatim>\<open>InvalidAddress\<close>, which
  is what the caller receives: the store produces no tree, and the session keeps the state
  it had. At an address that resolves it succeeds: the node at the address then holds the
  value under the key, its fields are those it had with the value assigned to the key, and
  nothing else has changed, in the node, in the tree or in the session; the same call once
  more returns the same state again.
\<close>

theorem updateData_invalid_or_merged:
  "(resolve (children st) a = None \<longrightarrow>
      updateData (nodeProps st a n) key v st = Inl InvalidAddress
      \<and> store_update (children st) a key v = Inl InvalidAddress
      \<and> dispatch (updateData (nodeProps st a n) key v) st = st)
   \<and> (resolve (children st) a = Some n \<longrightarrow>
      (\<exists>st' n'. updateData (nodeProps st a n) key v st = Inr st'
         \<and> resolve (children st') a = Some n'
         \<and> map_of (node_data n') key = Some v
         \<and> node_data n' = AList.update key v (node_data n)
         \<and> onlyFieldChanged st st' a key
         \<and> updateData (nodeProps st' a n') key v st' = Inr st'))"
proof (rule conjI; rule impI)
  assume r: "resolve (children st) a = None"
  from router_updateData_unresolved [OF r, of key v]
       modifyAt_None_iff [of "putField key v" "children st" a] r
  show "updateData (nodeProps st a n) key v st = Inl InvalidAddress
      \<and> store_update (children st) a key v = Inl InvalidAddress
      \<and> dispatch (updateData (nodeProps st a n) key v) st = st"
    by (simp add: updateData_def nodeProps_def dispatch_def store_update_def)
next
  assume r: "resolve (children st) a = Some n"
  from router_updateData_resolved [OF r, of key v] obtain ns' where
    m: "modifyAt (putField key v) (children st) a = Some ns'"
    and u: "router_updateData a key v st = Inr (st\<lparr>children := ns'\<rparr>)"
    and r': "resolve ns' a = Some (putField key v n)"
    by blast
  let ?st' = "st\<lparr>children := ns'\<rparr>"
  let ?n' = "putField key v n"
  have first: "updateData (nodeProps st a n) key v st = Inr ?st'"
    using u by (simp add: updateData_def nodeProps_def)
  have res: "resolve (children ?st') a = Some ?n'"
    using r' by simp
  have fields: "node_data ?n' = AList.update key v (node_data n)"
    by (simp add: putField_def setData_def)
  have frame: "onlyFieldChanged st ?st' a key"
    by (rule onlyFieldChanged_putField [OF r m])
  have again: "modifyAt (putField key v) ns' a = Some ns'"
    using modifyAt_twice [OF m, of "putField key v"] m by (simp add: putField_again)
  have second: "updateData (nodeProps ?st' a ?n') key v ?st' = Inr ?st'"
    using again
    by (simp add: updateData_def nodeProps_def router_updateData_def store_update_def)
  from first res fields frame second putField_lookup [of key v n]
  show "\<exists>st' n'. updateData (nodeProps st a n) key v st = Inr st'
         \<and> resolve (children st') a = Some n'
         \<and> map_of (node_data n') key = Some v
         \<and> node_data n' = AList.update key v (node_data n)
         \<and> onlyFieldChanged st st' a key
         \<and> updateData (nodeProps st' a n') key v st' = Inr st'"
    by blast
qed

theorem updateData_invalid_or_merged_witness:
  "resolve (children exampleSession) [0, 1] = None
   \<and> updateData (nodeProps exampleSession [0, 1] exampleB) ''title'' (Text ''X'') exampleSession
       = Inl InvalidAddress
   \<and> dispatch (updateData (nodeProps exampleSession [0, 1] exampleB) ''title'' (Text ''X''))
        exampleSession = exampleSession
   \<and> resolve (children exampleSession) [0, 0] = Some exampleB
   \<and> updateData (nodeProps exampleSession [0, 0] exampleB) ''title'' (Text ''X'') exampleSession
       = Inr (exampleSession\<lparr>children :=
           [ResumeNode ''uuid-A'' ''Section'' [(''isHidden'', Flag False)]
             [ResumeNode ''uuid-B'' ''Header''
               [(''value'', Text ''Work''), (''title'', Text ''X'')] []]]\<rparr>)
   \<and> onlyFieldChanged exampleSession
        (exampleSession\<lparr>children :=
           [ResumeNode ''uuid-A'' ''Section'' [(''isHidden'', Flag False)]
             [ResumeNode ''uuid-B'' ''Header''
               [(''value'', Text ''Work''), (''title'', Text ''X'')] []]]\<rparr>)
        [0, 0] ''title''"
proof -
  have bad: "resolve (children exampleSession) [0, 1] = None"
    and good: "resolve (children exampleSession) [0, 0] = Some exampleB"
    by (simp_all add: exampleSession_def exampleA_def)
  have run: "updateData (nodeProps exampleSession [0, 0] exampleB) ''title'' (Text ''X'')
       exampleSession
       = Inr (exampleSession\<lparr>children :=
           [ResumeNode ''uuid-A'' ''Section'' [(''isHidden'', Flag False)]
             [ResumeNode ''uuid-B'' ''Header''
               [(''value'', Text ''Work''), (''title'', Text ''X'')] []]]\<rparr>)"
    by (simp add: updateData_def nodeProps_def router_updateData_def store_update_def
        putField_def setData_def setChildren_def exampleSession_def exampleA_def exampleB_def)
  from updateData_invalid_or_merged [of exampleSession "[0, 0]" exampleB "''title''" "Text ''X''"]
       good run
  have frame: "onlyFieldChanged exampleSession
        (exampleSession\<lparr>children :=
           [ResumeNode ''uuid-A'' ''Section'' [(''isHidden'', Flag False)]
             [ResumeNode ''uuid-B'' ''Header''
               [(''value'', Text ''Work''), (''title'', Text ''X'')] []]]\<rparr>)
        [0, 0] ''title''"
    by auto
  from updateData_invalid_or_merged [of exampleSession "[0, 1]" exampleB "''title''" "Text ''X''"]
       bad good run frame
  show ?thesis by simp
qed

text \<open>
  C4. At a resolving address \<^verbatim>\<open>toggleHidden\<close> succeeds and flips the hidden flag of the node at
  the address, touching nothing but that flag; a second \<^verbatim>\<open>toggleHidden\<close> gives the flag its
  first value back, again touching nothing else, and gives the very same session back when
  the node held the flag as a boolean before.
\<close>

theorem toggleHidden_twice_restores:
  assumes r: "resolve (children st) a = Some n"
  shows "\<exists>st1 n1 st2 n2.
      toggleHidden (nodeProps st a n) st = Inr st1
    \<and> resolve (children st1) a = Some n1
    \<and> hiddenFlag n1 = (\<not> hiddenFlag n)
    \<and> onlyHiddenChanged st st1 a
    \<and> toggleHidden (nodeProps st1 a n1) st1 = Inr st2
    \<and> resolve (children st2) a = Some n2
    \<and> hiddenFlag n2 = hiddenFlag n
    \<and> onlyHiddenChanged st st2 a
    \<and> ((\<exists>b. map_of (node_data n) ''isHidden'' = Some (Flag b)) \<longrightarrow> st2 = st)"
proof -
  let ?k = "''isHidden''"
  let ?v1 = "Flag (\<not> hiddenFlag n)"
  let ?n1 = "putField ?k ?v1 n"
  let ?v2 = "Flag (hiddenFlag n)"
  let ?n2 = "putField ?k ?v2 n"
  from router_updateData_resolved [OF r, of ?k ?v1] obtain ns1 where
    m1: "modifyAt (putField ?k ?v1) (children st) a = Some ns1"
    and u1: "router_updateData a ?k ?v1 st = Inr (st\<lparr>children := ns1\<rparr>)"
    and r1: "resolve ns1 a = Some ?n1"
    by blast
  let ?st1 = "st\<lparr>children := ns1\<rparr>"
  have t1: "toggleHidden (nodeProps st a n) st = Inr ?st1"
    using u1 by (simp add: toggleHidden_nodeProps)
  have res1: "resolve (children ?st1) a = Some ?n1"
    using r1 by simp
  have f1: "hiddenFlag ?n1 = (\<not> hiddenFlag n)"
    by (simp add: hiddenFlag_putField)
  have o1: "onlyHiddenChanged st ?st1 a"
    by (rule onlyHiddenChanged_putField [OF r m1])
  from router_updateData_resolved [OF res1, of ?k "Flag (\<not> hiddenFlag ?n1)"] obtain ns2 where
    m2: "modifyAt (putField ?k ?v2) ns1 a = Some ns2"
    and u2: "router_updateData a ?k ?v2 ?st1 = Inr (st\<lparr>children := ns2\<rparr>)"
    and r2: "resolve ns2 a = Some ?n2"
    by (auto simp: hiddenFlag_putField putField_again)
  let ?st2 = "st\<lparr>children := ns2\<rparr>"
  have t2: "toggleHidden (nodeProps ?st1 a ?n1) ?st1 = Inr ?st2"
    using u2 by (simp add: toggleHidden_nodeProps hiddenFlag_putField)
  have res2: "resolve (children ?st2) a = Some ?n2"
    using r2 by simp
  have f2: "hiddenFlag ?n2 = hiddenFlag n"
    by (simp add: hiddenFlag_putField)
  have direct: "modifyAt (putField ?k ?v2) (children st) a = Some ns2"
    using modifyAt_twice [OF m1, of "putField ?k ?v2"] m2 by (simp add: putField_again)
  have o2: "onlyHiddenChanged st ?st2 a"
    by (rule onlyHiddenChanged_putField [OF r direct])
  have same: "(\<exists>b. map_of (node_data n) ?k = Some (Flag b)) \<longrightarrow> ?st2 = st"
  proof
    assume "\<exists>b. map_of (node_data n) ?k = Some (Flag b)"
    then obtain b where b: "map_of (node_data n) ?k = Some (Flag b)" by blast
    then have "hiddenFlag n = b"
      by (simp add: hiddenFlag_def flagOf_def truthy_def)
    with b have "?n2 = n"
      by (simp add: putField_def setData_def update_triv)
    from modifyAt_fixed [of "children st" a n "putField ?k ?v2", OF r this] direct
    have "ns2 = children st"
      by simp
    then show "?st2 = st" by simp
  qed
  from t1 res1 f1 o1 t2 res2 f2 o2 same show ?thesis by blast
qed


theorem toggleHidden_twice_restores_witness:
  "resolve (children exampleSession) [0] = Some exampleA
   \<and> (\<exists>b. map_of (node_data exampleA) ''isHidden'' = Some (Flag b))
   \<and> (\<exists>st1 n1. toggleHidden (nodeProps exampleSession [0] exampleA) exampleSession = Inr st1
         \<and> resolve (children st1) [0] = Some n1 \<and> hiddenFlag n1
         \<and> toggleHidden (nodeProps st1 [0] n1) st1 = Inr exampleSession)
   \<and> \<not> hiddenFlag exampleA
   \<and> resolve (children exampleSession) [0, 0] = Some exampleB
   \<and> toggleHidden (nodeProps exampleSession [0, 0] exampleB) exampleSession
       = Inr (exampleSession\<lparr>children :=
           [ResumeNode ''uuid-A'' ''Section'' [(''isHidden'', Flag False)]
             [ResumeNode ''uuid-B'' ''Header''
               [(''value'', Text ''Work''), (''isHidden'', Flag True)] []]]\<rparr>)"
proof -
  have ra: "resolve (children exampleSession) [0] = Some exampleA"
    and rb: "resolve (children exampleSession) [0, 0] = Some exampleB"
    by (simp_all add: exampleSession_def exampleA_def)
  have fa: "\<exists>b. map_of (node_data exampleA) ''isHidden'' = Some (Flag b)"
    by (rule exI [of _ False]) (simp add: exampleA_def)
  have ha: "\<not> hiddenFlag exampleA"
    by (simp add: hiddenFlag_def flagOf_def truthy_def exampleA_def)
  have run: "toggleHidden (nodeProps exampleSession [0, 0] exampleB) exampleSession
       = Inr (exampleSession\<lparr>children :=
           [ResumeNode ''uuid-A'' ''Section'' [(''isHidden'', Flag False)]
             [ResumeNode ''uuid-B'' ''Header''
               [(''value'', Text ''Work''), (''isHidden'', Flag True)] []]]\<rparr>)"
    by (simp add: toggleHidden_def nodeProps_def router_updateData_def store_update_def
        putField_def setData_def setChildren_def flagOf_def truthy_def
        exampleSession_def exampleA_def exampleB_def)
  from toggleHidden_twice_restores [OF ra] fa ha obtain st1 n1 where
    "toggleHidden (nodeProps exampleSession [0] exampleA) exampleSession = Inr st1"
    "resolve (children st1) [0] = Some n1" "hiddenFlag n1"
    "toggleHidden (nodeProps st1 [0] n1) st1 = Inr exampleSession"
    by auto
  with ra rb fa ha run show ?thesis by blast
qed

section \<open>Editing\<close>

text \<open>
  C7. \<^verbatim>\<open>Header.render\<close> tests \<^verbatim>\<open>this.props.isEditing\<close> alone. With the global edit flag set and
  the outer node selected, the header node at \<^verbatim>\<open>[0,0]\<close> is not selected, the getter \<^verbatim>\<open>isEditing\<close>
  and \<^verbatim>\<open>textFieldProps\<close> both say it is not editing, and \<^verbatim>\<open>render\<close> still produces the input
  field.
\<close>

theorem Header_render_input_when_unselected:
  "truthy (p_isEditing (headerProps editSession [0, 0] exampleB))
   \<and> \<not> isSelected (headerProps editSession [0, 0] exampleB) editSession
   \<and> \<not> isEditing (headerProps editSession [0, 0] exampleB) editSession
   \<and> \<not> tf_isEditing (textFieldProps (headerProps editSession [0, 0] exampleB) editSession)
   \<and> is_InputField (h_heading (Header_render (headerProps editSession [0, 0] exampleB)))"
  by (simp add: Header_render_def headerProps_def nodeProps_def isSelected_def isEditing_def
      textFieldProps_def tracker_isSelected_def truthy_def editSession_def exampleSession_def
      exampleB_def ResumeNodeProps.defs)

section \<open>Derived ids\<close>

text \<open>
  C9. In the id table of any snapshot the ids are pairwise distinct; an entry is either a
  root under \<^verbatim>\<open>[index-in-root-list]\<close> or a child under its parent's id with its index in the
  parent's child list appended, and every such pair is an entry; an id of the table
  identifies the one node it resolves to. The ids \<^verbatim>\<open>parentId ++ [index]\<close> built from what
  \<^verbatim>\<open>renderChildren\<close> passes down are those of the node's children, in order.
\<close>

theorem derived_ids_distinct_and_positional:
  "distinct (map fst (deriveIds roots))
   \<and> ((x, m) \<in> set (deriveIds roots) \<longleftrightarrow>
        (\<exists>k. k < length roots \<and> x = [k] \<and> m = roots ! k)
        \<or> (\<exists>p nd k. (p, nd) \<in> set (deriveIds roots) \<and> k < length (node_children nd)
              \<and> x = p @ [k] \<and> m = node_children nd ! k))
   \<and> ((x, m) \<in> set (deriveIds roots) \<longleftrightarrow> resolve roots x = Some m)
   \<and> map (\<lambda>cp. (p_id (ResumeComponent e cp), c_elem cp)) (renderChildren (nodeProps st x m))
       = map (\<lambda>k. (x @ [k], node_children m ! k)) [0..<length (node_children m)]"
proof -
  have d: "distinct (map fst (deriveIds roots))"
    by (simp add: deriveIds_def alloc_distinct(2))
  have pos: "(x, m) \<in> set (deriveIds roots) \<longleftrightarrow>
        (\<exists>k. k < length roots \<and> x = [k] \<and> m = roots ! k)
        \<or> (\<exists>p nd k. (p, nd) \<in> set (deriveIds roots) \<and> k < length (node_children nd)
              \<and> x = p @ [k] \<and> m = node_children nd ! k)"
    using resolve_positional [of roots x m] by (simp only: deriveIds_resolve)
  from d pos deriveIds_resolve [of x m roots] renderChildren_ids [of e st x m]
  show ?thesis by blast
qed

theorem derived_ids_distinct_and_positional_witness:
  "deriveIds exampleRoots =
     [([0], exampleA), ([0, 0], exampleB),
      ([1], ResumeNode ''uuid-C'' ''Section'' []
              [ResumeNode ''uuid-D'' ''Entry'' [] [], ResumeNode ''uuid-E'' ''Entry'' [] []]),
      ([1, 0], ResumeNode ''uuid-D'' ''Entry'' [] []),
      ([1, 1], ResumeNode ''uuid-E'' ''Entry'' [] [])]
   \<and> distinct (map fst (deriveIds exampleRoots))
   \<and> resolve exampleRoots [1, 1] = Some (ResumeNode ''uuid-E'' ''Entry'' [] [])
   \<and> ([1, 1], ResumeNode ''uuid-E'' ''Entry'' [] []) \<in> set (deriveIds exampleRoots)"
proof -
  have t: "deriveIds exampleRoots =
     [([0], exampleA), ([0, 0], exampleB),
      ([1], ResumeNode ''uuid-C'' ''Section'' []
              [ResumeNode ''uuid-D'' ''Entry'' [] [], ResumeNode ''uuid-E'' ''Entry'' [] []]),
      ([1, 0], ResumeNode ''uuid-D'' ''Entry'' [] []),
      ([1, 1], ResumeNode ''uuid-E'' ''Entry'' [] [])]"
    by (simp add: deriveIds_def exampleRoots_def exampleA_def exampleB_def)
  have r: "resolve exampleRoots [1, 1] = Some (ResumeNode ''uuid-E'' ''Entry'' [] [])"
    by (simp add: exampleRoots_def)
  from derived_ids_distinct_and_positional
         [of exampleRoots "[1, 1]" "ResumeNode ''uuid-E'' ''Entry'' [] []" None exampleSession]
       t r
  show ?thesis by blast
qed

end
